theory Spec2Isabelle
  imports Complex_Main "HOL-Library.Word"
begin

section \<open>The inference script \<^verbatim>\<open>ml/predict.py\<close>\<close>

text \<open>
  The script is a linear pipeline around three libraries: the file is read and
  base64-decoded, Pillow decodes and resizes the image, Keras loads the model and
  predicts, numpy selects the winning class. The libraries are not part of the
  repository, so their entry points are fields of a record the script is run against;
  what the script itself computes (the normalisation, the batch dimension, the arg-max,
  the lookup in \<^verbatim>\<open>class_names\<close>, the formatting) is defined here.

  A floating-point number is the real number it denotes when it is finite (every
  finite float is a rational, and the script only divides by 255, compares and
  formats), or an infinity, or NaN. The pixel values, bytes divided by 255, are always
  finite and are reals; the model's predictions are floats of any kind. The sign of a
  zero is not kept.
  The text read from the file is the list of its code points; paths, class names and
  the lines printed, which are ASCII, are \<^typ>\<open>string\<close>s.
\<close>

subsection \<open>Exceptions\<close>

text \<open>
  The exceptions the libraries and the script's own indexing raise. \<^verbatim>\<open>sys.exit(n)\<close>
  raises \<^verbatim>\<open>SystemExit\<close>, which only the script does; the type keeps the two apart.
\<close>

datatype error =
    OSError
  | UnicodeDecodeError
  | BinasciiError
  | UnidentifiedImageError
  | ModelLoadError
  | InferenceError
  | ValueError
  | IndexError

datatype exn = SystemExit nat | Raised error

subsection \<open>Arrays\<close>

type_synonym bytes = "8 word list"

text \<open>
  \<^verbatim>\<open>np.array(img)\<close> of an image is an array of unsigned bytes indexed by row, column and
  channel; dividing it by \<^verbatim>\<open>255.0\<close> gives floats; the model's input has one more
  leading axis, its output is a matrix with one row for each image of the batch.
\<close>

datatype float = Finite real | PosInf | NegInf | NaN

text \<open>
  The comparison \<^verbatim>\<open><=\<close> of IEEE floats, which is false whenever an operand is
  NaN, and the strict one.
\<close>

fun isnan :: "float \<Rightarrow> bool" where
  "isnan NaN = True"
| "isnan _ = False"

fun float_le :: "float \<Rightarrow> float \<Rightarrow> bool" where
  "float_le NaN _ = False"
| "float_le _ NaN = False"
| "float_le NegInf _ = True"
| "float_le _ PosInf = True"
| "float_le (Finite a) (Finite b) = (a \<le> b)"
| "float_le PosInf _ = False"
| "float_le _ NegInf = False"

definition float_lt :: "float \<Rightarrow> float \<Rightarrow> bool" where
  "float_lt x y = (float_le x y \<and> \<not> float_le y x)"

type_synonym uint8_array3 = "8 word list list list"
type_synonym float_array3 = "real list list list"
type_synonym float_array4 = "real list list list list"
type_synonym float_array2 = "float list list"

definition has_shape3 :: "nat \<times> nat \<times> nat \<Rightarrow> 'a list list list \<Rightarrow> bool" where
  "has_shape3 s a =
     (case s of (h, w, c) \<Rightarrow>
        length a = h \<and> list_all (\<lambda>row. length row = w \<and> list_all (\<lambda>px. length px = c) row) a)"

definition has_shape4 :: "nat \<times> nat \<times> nat \<times> nat \<Rightarrow> 'a list list list list \<Rightarrow> bool" where
  "has_shape4 s t = (case s of (n, s3) \<Rightarrow> length t = n \<and> list_all (has_shape3 s3) t)"

definition all_values4 :: "('a \<Rightarrow> bool) \<Rightarrow> 'a list list list list \<Rightarrow> bool" where
  "all_values4 P t = list_all (list_all (list_all (list_all P))) t"

text \<open>\<^verbatim>\<open>a / 255.0\<close> on a byte array: every element, as a float, divided by 255.\<close>

definition np_divide :: "uint8_array3 \<Rightarrow> real \<Rightarrow> float_array3" where
  "np_divide a d = map (map (map (\<lambda>v. real (unat v) / d))) a"

text \<open>\<^verbatim>\<open>np.expand_dims(a, axis=0)\<close>: a new leading axis of length 1.\<close>

definition np_expand_dims0 :: "'a \<Rightarrow> 'a list" where
  "np_expand_dims0 a = [a]"

text \<open>
  \<^verbatim>\<open>np.argmax\<close> of a vector is the index of the first occurrence of its maximum, a NaN
  counting as maximal, and a \<^verbatim>\<open>ValueError\<close> on an empty vector. numpy's loop keeps the
  best value and its index; an element \<open>x\<close> replaces them when \<^verbatim>\<open>!(x <= best)\<close>, that is
  when it is greater or a NaN, and the loop stops at a NaN.
\<close>

fun argmax_loop :: "float \<Rightarrow> nat \<Rightarrow> nat \<Rightarrow> float list \<Rightarrow> nat" where
  "argmax_loop best best_i i [] = best_i"
| "argmax_loop best best_i i (x # xs) =
     (if \<not> float_le x best then (if isnan x then i else argmax_loop x i (Suc i) xs)
      else argmax_loop best best_i (Suc i) xs)"

definition np_argmax :: "float list \<Rightarrow> error + nat" where
  "np_argmax v =
     (case v of
        [] \<Rightarrow> Inl ValueError
      | x # xs \<Rightarrow> Inr (if isnan x then 0 else argmax_loop x 0 1 xs))"

text \<open>\<^verbatim>\<open>np.argmax(a, axis=1)\<close> of a matrix: the arg-max of every row.\<close>

fun np_argmax_axis1 :: "float_array2 \<Rightarrow> error + nat list" where
  "np_argmax_axis1 [] = Inr []"
| "np_argmax_axis1 (row # rows) =
     (case np_argmax row of
        Inl e \<Rightarrow> Inl e
      | Inr i \<Rightarrow>
          (case np_argmax_axis1 rows of Inl e \<Rightarrow> Inl e | Inr js \<Rightarrow> Inr (i # js)))"

text \<open>
  \<^verbatim>\<open>np.max(a)\<close> with no axis: the maximum over all elements of the matrix, NaN when one
  of them is NaN, and a \<^verbatim>\<open>ValueError\<close> when it has none. It reduces the elements with
  \<^verbatim>\<open>np.maximum\<close>, which is \<^verbatim>\<open>(a >= b || isnan(a)) ? a : b\<close>.
\<close>

definition np_maximum :: "float \<Rightarrow> float \<Rightarrow> float" where
  "np_maximum a b = (if float_le b a \<or> isnan a then a else b)"

definition np_max :: "float_array2 \<Rightarrow> error + float" where
  "np_max a =
     (case concat a of
        [] \<Rightarrow> Inl ValueError
      | x # xs \<Rightarrow> Inr (fold (\<lambda>y acc. np_maximum acc y) xs x))"

text \<open>Indexing a sequence by a non-negative index raises \<^verbatim>\<open>IndexError\<close> out of range.\<close>

definition getitem :: "'a list \<Rightarrow> nat \<Rightarrow> error + 'a" where
  "getitem xs i = (if i < length xs then Inr (xs ! i) else Inl IndexError)"

subsection \<open>Text\<close>

text \<open>
  A Python \<^verbatim>\<open>str\<close> with arbitrary contents is the list of its code points.
  \<^verbatim>\<open>str.strip()\<close> removes the leading and the trailing whitespace; the code points
  Python counts as whitespace are U+0009 to U+000D, U+001C to U+0020, U+0085, U+00A0,
  U+1680, U+2000 to U+200A, U+2028, U+2029, U+202F, U+205F and U+3000.
\<close>

type_synonym str = "nat list"

definition codepoints :: "string \<Rightarrow> str" where
  "codepoints s = map of_char s"

definition isspace :: "nat \<Rightarrow> bool" where
  "isspace k =
     ((9 \<le> k \<and> k \<le> 13) \<or> (28 \<le> k \<and> k \<le> 32) \<or> k = 133 \<or> k = 160 \<or> k = 5760 \<or>
      (8192 \<le> k \<and> k \<le> 8202) \<or> k = 8232 \<or> k = 8233 \<or> k = 8239 \<or> k = 8287 \<or> k = 12288)"

definition strip :: "str \<Rightarrow> str" where
  "strip s = rev (dropWhile isspace (rev (dropWhile isspace s)))"

text \<open>
  The format \<^verbatim>\<open>.4f\<close> of a finite value: the value rounded to the nearest multiple
  of one ten-thousandth, a tie going to the even neighbour; a minus sign for a negative
  value, the integer part in decimal, a point and four digits. Of the other floats it
  is \<^verbatim>\<open>nan\<close>, \<^verbatim>\<open>inf\<close> and \<^verbatim>\<open>-inf\<close>.
\<close>

definition round_half_even :: "real \<Rightarrow> int" where
  "round_half_even x =
     (let f = \<lfloor>x\<rfloor>; d = x - of_int f
      in if d < 1 / 2 then f else if 1 / 2 < d then f + 1 else if even f then f else f + 1)"

definition digit_char :: "nat \<Rightarrow> char" where
  "digit_char d = ''0123456789'' ! d"

function str_nat :: "nat \<Rightarrow> string" where
  "str_nat n = (if n < 10 then [digit_char n] else str_nat (n div 10) @ [digit_char (n mod 10)])"
  by pat_completeness auto
termination
  by (relation "measure id") auto

declare str_nat.simps [simp del]

definition fixed_4f :: "real \<Rightarrow> string" where
  "fixed_4f x =
     (let q = nat (round_half_even (\<bar>x\<bar> * 10000));
          r = q mod 10000
      in (if x < 0 then ''-'' else '''') @ str_nat (q div 10000) @ ''.'' @
         [digit_char (r div 1000), digit_char (r div 100 mod 10),
          digit_char (r div 10 mod 10), digit_char (r mod 10)])"

fun format_4f :: "float \<Rightarrow> string" where
  "format_4f (Finite x) = fixed_4f x"
| "format_4f NaN = ''nan''"
| "format_4f PosInf = ''inf''"
| "format_4f NegInf = ''-inf''"

text \<open>The number \<^verbatim>\<open>.4f\<close> prints for a finite value, in ten-thousandths.\<close>

definition rounded4 :: "real \<Rightarrow> nat" where
  "rounded4 x = nat (round_half_even (\<bar>x\<bar> * 10000))"

subsection \<open>The libraries the script calls\<close>

text \<open>
  \<^item> \<open>files path\<close>: \<^verbatim>\<open>open(path, "r")\<close> followed by \<^verbatim>\<open>f.read()\<close>, the whole text of
    the file or the exception of either call;
  \<^item> \<open>b64decode\<close>: \<^verbatim>\<open>base64.b64decode\<close>;
  \<^item> \<open>Image_open\<close>, \<open>convert\<close>, \<open>resize\<close>: Pillow's \<^verbatim>\<open>Image.open(BytesIO(b))\<close>,
    \<^verbatim>\<open>img.convert(mode)\<close> and \<^verbatim>\<open>img.resize(size)\<close>, each of which can raise on a
    damaged file; \<open>img_mode\<close> and \<open>img_size\<close> read an image's mode and its
    (width, height); \<open>np_array\<close> is \<^verbatim>\<open>np.array(img)\<close>;
  \<^item> \<open>load_model\<close> and \<open>predict\<close>: Keras' \<^verbatim>\<open>load_model(path)\<close> and
    \<^verbatim>\<open>model.predict(x, verbose=0)\<close>;
  \<^item> \<open>import_environ\<close>: what the \<^verbatim>\<open>import\<close> statements of the script do to
    \<^verbatim>\<open>os.environ\<close> (importing TensorFlow sets variables of its own).
\<close>

record ('img, 'mdl) platform =
  files :: "string \<Rightarrow> error + str"
  b64decode :: "str \<Rightarrow> error + bytes"
  Image_open :: "bytes \<Rightarrow> error + 'img"
  convert :: "'img \<Rightarrow> string \<Rightarrow> error + 'img"
  resize :: "'img \<Rightarrow> nat \<times> nat \<Rightarrow> error + 'img"
  img_mode :: "'img \<Rightarrow> string"
  img_size :: "'img \<Rightarrow> nat \<times> nat"
  np_array :: "'img \<Rightarrow> uint8_array3"
  load_model :: "string \<Rightarrow> error + 'mdl"
  predict :: "'mdl \<Rightarrow> float_array4 \<Rightarrow> error + float_array2"
  import_environ :: "(string \<rightharpoonup> string) \<Rightarrow> (string \<rightharpoonup> string)"

text \<open>
  What Pillow documents of these calls: \<^verbatim>\<open>convert\<close> returns an image of the mode asked
  for and of the same size, \<^verbatim>\<open>resize\<close> one of the size asked for and of the same mode,
  and the array of an RGB image of size (width, height) has height rows, width columns
  and 3 channels.
\<close>

definition pillow_contract :: "('img, 'mdl) platform \<Rightarrow> bool" where
  "pillow_contract pf =
     ((\<forall>img m img'. convert pf img m = Inr img' \<longrightarrow>
          img_mode pf img' = m \<and> img_size pf img' = img_size pf img) \<and>
      (\<forall>img s img'. resize pf img s = Inr img' \<longrightarrow>
          img_size pf img' = s \<and> img_mode pf img' = img_mode pf img) \<and>
      (\<forall>img. img_mode pf img = ''RGB'' \<longrightarrow>
          has_shape3 (snd (img_size pf img), fst (img_size pf img), 3) (np_array pf img)))"

text \<open>The path the script loads its classifier from.\<close>

definition model_path :: string where
  "model_path = ''ml/flower3.keras''"

text \<open>
  Modelled from the spec: the classifier file \<^verbatim>\<open>ml/flower3.keras\<close> is not in the
  repository. The spec's data model says of it: "an opaque, pre-trained classifier
  loaded from a fixed on-disk path, mapping an image tensor to a probability
  distribution over 2 fixed classes". Every entry of a prediction of the model loaded
  from that path is a probability, a finite number between 0 and 1.
\<close>

definition probability_model :: "('img, 'mdl) platform \<Rightarrow> bool" where
  "probability_model pf =
     (\<forall>m x preds. load_model pf model_path = Inr m \<longrightarrow> predict pf m x = Inr preds \<longrightarrow>
        list_all (list_all (\<lambda>p. case p of Finite r \<Rightarrow> 0 \<le> r \<and> r \<le> 1 | _ \<Rightarrow> False)) preds)"

subsection \<open>The script\<close>

definition class_names :: "string list" where
  "class_names = [''Marigold'', ''Scarlet Sage'']"

definition load_and_preprocess_image_from_bytes ::
  "('img, 'mdl) platform \<Rightarrow> bytes \<Rightarrow> nat \<times> nat \<Rightarrow> error + float_array4" where
  "load_and_preprocess_image_from_bytes pf img_bytes target_size_arg =
     (case Image_open pf img_bytes of
        Inl e \<Rightarrow> Inl e
      | Inr opened \<Rightarrow>
          (case convert pf opened ''RGB'' of
             Inl e \<Rightarrow> Inl e
           | Inr rgb \<Rightarrow>
               (case resize pf rgb target_size_arg of
                  Inl e \<Rightarrow> Inl e
                | Inr img \<Rightarrow>
                    (let img_array = np_divide (np_array pf img) 255
                     in Inr (np_expand_dims0 img_array)))))"

text \<open>
  \<^verbatim>\<open>main\<close> returns the lines it printed to standard output and how it ended: normally,
  or with an exception. It is written in three parts. \<open>main_report\<close> is the end of
  \<^verbatim>\<open>main\<close> from \<^verbatim>\<open>predicted_index = ...\<close> to the \<^verbatim>\<open>print\<close>;
  \<open>main_classify\<close> is the part from \<^verbatim>\<open>load_model\<close> on, which has the decoded bytes;
  \<open>main\<close> is the whole function.
\<close>

definition main_report :: "float_array2 \<Rightarrow> string list \<times> (exn + unit)" where
  "main_report preds =
     (case np_argmax_axis1 preds of
        Inl e \<Rightarrow> ([], Inl (Raised e))
      | Inr indices \<Rightarrow>
          (case getitem indices 0 of
             Inl e \<Rightarrow> ([], Inl (Raised e))
           | Inr predicted_index \<Rightarrow>
               (case getitem class_names predicted_index of
                  Inl e \<Rightarrow> ([], Inl (Raised e))
                | Inr predicted_label \<Rightarrow>
                    (case np_max preds of
                       Inl e \<Rightarrow> ([], Inl (Raised e))
                     | Inr confidence \<Rightarrow>
                         ([predicted_label @ ''|'' @ format_4f confidence], Inr ())))))"

definition main_classify ::
  "('img, 'mdl) platform \<Rightarrow> bytes \<Rightarrow> string list \<times> (exn + unit)" where
  "main_classify pf img_bytes =
     (case load_model pf model_path of
        Inl e \<Rightarrow> ([], Inl (Raised e))
      | Inr model \<Rightarrow>
          (case load_and_preprocess_image_from_bytes pf img_bytes (150, 150) of
             Inl e \<Rightarrow> ([], Inl (Raised e))
           | Inr img_array \<Rightarrow>
               (case predict pf model img_array of
                  Inl e \<Rightarrow> ([], Inl (Raised e))
                | Inr preds \<Rightarrow> main_report preds)))"

definition main :: "('img, 'mdl) platform \<Rightarrow> string list \<Rightarrow> string list \<times> (exn + unit)" where
  "main pf argv =
     (if length argv < 2 then ([''Error|0.0''], Inl (SystemExit 1))
      else
        (let b64_file_path = argv ! 1
         in case files pf b64_file_path of
              Inl e \<Rightarrow> ([], Inl (Raised e))
            | Inr contents \<Rightarrow>
                (let b64_string = strip contents
                 in case b64decode pf b64_string of
                      Inl e \<Rightarrow> ([], Inl (Raised e))
                    | Inr img_bytes \<Rightarrow> main_classify pf img_bytes)))"

text \<open>
  The process: the module first sets \<^verbatim>\<open>TF_CPP_MIN_LOG_LEVEL\<close> in \<^verbatim>\<open>os.environ\<close>, then
  imports the libraries (taken to succeed), which may write to the environment, then
  runs \<^verbatim>\<open>main\<close>, which does not touch it. The interpreter exits
  with 0 when \<^verbatim>\<open>main\<close> returns, with \<open>n\<close> on \<^verbatim>\<open>sys.exit(n)\<close>, and with 1 and a
  traceback on the error stream on any other exception.
\<close>

record process =
  environ :: "string \<rightharpoonup> string"
  stdout :: "string list"
  traceback :: "error option"
  exit_code :: nat

fun exit_status :: "exn + unit \<Rightarrow> nat" where
  "exit_status (Inr _) = 0"
| "exit_status (Inl (SystemExit n)) = n"
| "exit_status (Inl (Raised e)) = 1"

fun uncaught :: "exn + unit \<Rightarrow> error option" where
  "uncaught (Inl (Raised e)) = Some e"
| "uncaught _ = None"

definition script ::
  "('img, 'mdl) platform \<Rightarrow> (string \<rightharpoonup> string) \<Rightarrow> string list \<Rightarrow> process" where
  "script pf env argv =
     (let env1 = env(''TF_CPP_MIN_LOG_LEVEL'' \<mapsto> ''3'');
          env2 = import_environ pf env1;
          (out, r) = main pf argv
      in \<lparr>environ = env2, stdout = out, traceback = uncaught r, exit_code = exit_status r\<rparr>)"

subsection \<open>Reading the output\<close>

text \<open>
  The shape of a number printed with four decimals: an optional minus sign, at least one
  digit, a point, exactly four digits. \<open>decimal_value\<close> is the number such a text
  denotes.
\<close>

definition is_digit :: "char \<Rightarrow> bool" where
  "is_digit ch = (ch \<in> set ''0123456789'')"

definition four_decimals :: "string \<Rightarrow> bool" where
  "four_decimals s =
     (let t = (if take 1 s = ''-'' then drop 1 s else s);
          int_part = take (length t - 5) t;
          rest = drop (length t - 5) t
      in int_part \<noteq> [] \<and> list_all is_digit int_part \<and> length rest = 5 \<and>
         take 1 rest = ''.'' \<and> list_all is_digit (drop 1 rest))"

definition digit_val :: "char \<Rightarrow> nat" where
  "digit_val ch = of_char ch - 48"

definition nat_of_digits :: "string \<Rightarrow> nat" where
  "nat_of_digits s = foldl (\<lambda>acc ch. 10 * acc + digit_val ch) 0 s"

definition decimal_value :: "string \<Rightarrow> real" where
  "decimal_value s =
     (let neg = (take 1 s = ''-'');
          t = (if neg then drop 1 s else s);
          int_part = takeWhile (\<lambda>ch. ch \<noteq> CHR ''.'') t;
          frac_part = drop 1 (dropWhile (\<lambda>ch. ch \<noteq> CHR ''.'') t);
          v = real (nat_of_digits int_part) + real (nat_of_digits frac_part) / 10 ^ length frac_part
      in if neg then - v else v)"

subsection \<open>A small platform to run the script on\<close>

text \<open>
  An instance of the libraries, for running the script on concrete inputs. Its image
  format has five bytes: width, height and one colour for every pixel. It has three
  files: \<^verbatim>\<open>flower.b64\<close>, a 2 by 2 image of colour (204, 128, 0) in base64 between
  blanks; \<^verbatim>\<open>note.b64\<close>, the base64 of two bytes that are no image, and a newline; \<^verbatim>\<open>broken.b64\<close>, a
  single character, which is no base64. Its decoder knows the two payloads. Its model
  is the matrix it answers with, whatever the image, and loads from the script's model
  path only. Importing it sets \<^verbatim>\<open>TF2_BEHAVIOR\<close>, as importing TensorFlow does.
\<close>

definition toy_files :: "string \<Rightarrow> error + str" where
  "toy_files path =
     (if path = ''flower.b64'' then Inr (codepoints '' AgLMgAA=  '')
      else if path = ''note.b64'' then Inr (codepoints ''aGk='' @ [10])
      else if path = ''broken.b64'' then Inr (codepoints ''A'')
      else Inl OSError)"

definition toy_b64decode :: "str \<Rightarrow> error + bytes" where
  "toy_b64decode s =
     (if s = codepoints ''AgLMgAA='' then Inr [2, 2, 204, 128, 0]
      else if s = codepoints ''aGk='' then Inr [104, 105]
      else Inl BinasciiError)"

record toy_image =
  toy_mode :: string
  toy_size :: "nat \<times> nat"
  toy_colour :: "8 word list"

definition toy_open :: "bytes \<Rightarrow> error + toy_image" where
  "toy_open b =
     (case b of
        [w, h, r, g, bl] \<Rightarrow>
          Inr \<lparr>toy_mode = ''P'', toy_size = (unat w, unat h), toy_colour = [r, g, bl]\<rparr>
      | _ \<Rightarrow> Inl UnidentifiedImageError)"

definition toy_array :: "toy_image \<Rightarrow> uint8_array3" where
  "toy_array img =
     replicate (snd (toy_size img)) (replicate (fst (toy_size img))
       (if toy_mode img = ''RGB'' then take 3 (toy_colour img @ [0, 0, 0]) else take 1 (toy_colour img)))"

definition toy_platform :: "float_array2 \<Rightarrow> (toy_image, float_array2) platform" where
  "toy_platform answer =
     \<lparr>files = toy_files,
      b64decode = toy_b64decode,
      Image_open = toy_open,
      convert = (\<lambda>img m. Inr (img\<lparr>toy_mode := m\<rparr>)),
      resize = (\<lambda>img s. Inr (img\<lparr>toy_size := s\<rparr>)),
      img_mode = toy_mode,
      img_size = toy_size,
      np_array = toy_array,
      load_model = (\<lambda>path. if path = ''ml/flower3.keras'' then Inr answer else Inl ModelLoadError),
      predict = (\<lambda>m x. Inr m),
      import_environ = (\<lambda>e. e(''TF2_BEHAVIOR'' \<mapsto> ''1''))\<rparr>"

section \<open>Properties\<close>

subsection \<open>Digits and the four-decimal format\<close>

lemma digit_char_props:
  assumes "d < 10"
  shows "is_digit (digit_char d)" "digit_val (digit_char d) = d"
    "digit_char d \<noteq> CHR ''.''" "digit_char d \<noteq> CHR ''-''"
proof -
  from assms have "d \<in> {0, 1, 2, 3, 4, 5, 6, 7, 8, 9}" by auto
  then show "is_digit (digit_char d)" "digit_val (digit_char d) = d"
    "digit_char d \<noteq> CHR ''.''" "digit_char d \<noteq> CHR ''-''"
    by (auto simp: digit_char_def is_digit_def digit_val_def)
qed

lemma str_nat_nonempty: "str_nat n \<noteq> []"
  by (subst str_nat.simps) simp

lemma str_nat_digits: "list_all is_digit (str_nat n)"
proof (induction n rule: str_nat.induct)
  case (1 n)
  show ?case
  proof (cases "n < 10")
    case True
    then show ?thesis by (subst str_nat.simps) (simp add: digit_char_props)
  next
    case False
    with 1 show ?thesis by (subst str_nat.simps) (simp add: digit_char_props)
  qed
qed

lemma is_digit_not_point: "is_digit ch \<Longrightarrow> ch \<noteq> CHR ''.'' \<and> ch \<noteq> CHR ''-''"
  by (auto simp: is_digit_def)

lemma nat_of_digits_snoc:
  "nat_of_digits (s @ [ch]) = 10 * nat_of_digits s + digit_val ch"
  by (simp add: nat_of_digits_def)

lemma nat_of_digits_str_nat: "nat_of_digits (str_nat n) = n"
proof (induction n rule: str_nat.induct)
  case (1 n)
  show ?case
  proof (cases "n < 10")
    case True
    then show ?thesis
      by (subst str_nat.simps) (simp add: nat_of_digits_def digit_char_props)
  next
    case False
    with 1 show ?thesis
      by (subst str_nat.simps) (simp add: nat_of_digits_snoc digit_char_props)
  qed
qed


lemma four_digits_value:
  assumes "r < 10000"
  shows "nat_of_digits [digit_char (r div 1000), digit_char (r div 100 mod 10),
           digit_char (r div 10 mod 10), digit_char (r mod 10)] = r"
proof -
  have a: "r div 1000 = r div 100 div 10" and b: "r div 100 = r div 10 div 10"
    by (simp_all add: div_mult2_eq [symmetric])
  from assms have "r div 1000 < 10" by simp
  then have "nat_of_digits [digit_char (r div 1000), digit_char (r div 100 mod 10),
           digit_char (r div 10 mod 10), digit_char (r mod 10)] =
        10 * (10 * (10 * (r div 1000) + r div 100 mod 10) + r div 10 mod 10) + r mod 10"
    by (simp add: nat_of_digits_def digit_char_props)
  also have "10 * (r div 1000) + r div 100 mod 10 = r div 100"
    unfolding a by (rule mult_div_mod_eq)
  also have "10 * (r div 100) + r div 10 mod 10 = r div 10"
    unfolding b by (rule mult_div_mod_eq)
  also have "10 * (r div 10) + r mod 10 = r"
    by (rule mult_div_mod_eq)
  finally show ?thesis .
qed

lemma four_digits_are_digits:
  assumes "r < 10000"
  shows "list_all is_digit [digit_char (r div 1000), digit_char (r div 100 mod 10),
           digit_char (r div 10 mod 10), digit_char (r mod 10)]"
proof -
  from assms have "r div 1000 < 10" by simp
  then show ?thesis by (simp add: digit_char_props)
qed

lemma fixed_4f_shape:
  "fixed_4f x = (if x < 0 then ''-'' else '''') @ str_nat (rounded4 x div 10000) @ ''.'' @
     [digit_char (rounded4 x mod 10000 div 1000), digit_char (rounded4 x mod 10000 div 100 mod 10),
      digit_char (rounded4 x mod 10000 div 10 mod 10), digit_char (rounded4 x mod 10000 mod 10)]"
  by (simp add: fixed_4f_def rounded4_def Let_def)

lemma hd_str_nat_not_minus: "take 1 (str_nat n @ s) \<noteq> ''-''"
proof -
  obtain ch cs where c: "str_nat n = ch # cs" using str_nat_nonempty [of n] by (cases "str_nat n") auto
  have "is_digit ch" using str_nat_digits [of n] c by simp
  then show ?thesis using c is_digit_not_point by auto
qed

lemma fixed_4f_four_decimals: "four_decimals (fixed_4f x)"
proof -
  let ?ip = "str_nat (rounded4 x div 10000)"
  let ?fp = "[digit_char (rounded4 x mod 10000 div 1000), digit_char (rounded4 x mod 10000 div 100 mod 10),
      digit_char (rounded4 x mod 10000 div 10 mod 10), digit_char (rounded4 x mod 10000 mod 10)]"
  let ?t = "?ip @ ''.'' @ ?fp"
  have body: "(if take 1 (fixed_4f x) = ''-'' then drop 1 (fixed_4f x) else fixed_4f x) = ?t"
  proof (cases "x < 0")
    case True
    then show ?thesis by (simp add: fixed_4f_shape)
  next
    case False
    then have "fixed_4f x = ?t" by (simp add: fixed_4f_shape)
    moreover have "take 1 ?t \<noteq> ''-''" by (rule hd_str_nat_not_minus)
    ultimately show ?thesis by simp
  qed
  have fd: "list_all is_digit ?fp" by (rule four_digits_are_digits) simp
  have "length ?t - 5 = length ?ip" by simp
  then have "take (length ?t - 5) ?t = ?ip" "drop (length ?t - 5) ?t = ''.'' @ ?fp"
    by simp_all
  then show ?thesis
    unfolding four_decimals_def body Let_def
    using fd str_nat_nonempty str_nat_digits by simp
qed

lemma decimal_value_parts:
  assumes "\<And>ch. ch \<in> set ip \<Longrightarrow> ch \<noteq> CHR ''.''" and "take 1 (ip @ CHR ''.'' # fp) \<noteq> ''-''"
  shows "decimal_value (ip @ CHR ''.'' # fp) =
           real (nat_of_digits ip) + real (nat_of_digits fp) / 10 ^ length fp"
    and "decimal_value (CHR ''-'' # ip @ CHR ''.'' # fp) =
           - (real (nat_of_digits ip) + real (nat_of_digits fp) / 10 ^ length fp)"
proof -
  have tw: "takeWhile (\<lambda>ch. ch \<noteq> CHR ''.'') (ip @ CHR ''.'' # fp) = ip"
    using assms(1) by (simp add: takeWhile_tail)
  have dw: "dropWhile (\<lambda>ch. ch \<noteq> CHR ''.'') (ip @ CHR ''.'' # fp) = CHR ''.'' # fp"
    using assms(1) by (simp add: dropWhile_append3)
  show "decimal_value (ip @ CHR ''.'' # fp) =
           real (nat_of_digits ip) + real (nat_of_digits fp) / 10 ^ length fp"
    using assms(2) by (simp add: decimal_value_def Let_def tw dw)
  have m: "take 1 (CHR ''-'' # ip @ CHR ''.'' # fp) = ''-''" "drop 1 (CHR ''-'' # ip @ CHR ''.'' # fp) = ip @ CHR ''.'' # fp"
    by simp_all
  show "decimal_value (CHR ''-'' # ip @ CHR ''.'' # fp) =
           - (real (nat_of_digits ip) + real (nat_of_digits fp) / 10 ^ length fp)"
    by (simp add: decimal_value_def Let_def tw dw)
qed


lemma decimal_value_fixed_4f:
  "decimal_value (fixed_4f x) = (if x < 0 then - 1 else 1) * (real (rounded4 x) / 10000)"
proof -
  define ip where "ip = str_nat (rounded4 x div 10000)"
  define fp where "fp = [digit_char (rounded4 x mod 10000 div 1000),
      digit_char (rounded4 x mod 10000 div 100 mod 10),
      digit_char (rounded4 x mod 10000 div 10 mod 10), digit_char (rounded4 x mod 10000 mod 10)]"
  have nodot: "ch \<noteq> CHR ''.''" if "ch \<in> set ip" for ch
    using that str_nat_digits [of "rounded4 x div 10000"] is_digit_not_point
    unfolding ip_def list_all_iff by blast
  have nm: "take 1 (ip @ CHR ''.'' # fp) \<noteq> ''-''"
    unfolding ip_def by (rule hd_str_nat_not_minus)
  have fv: "nat_of_digits fp = rounded4 x mod 10000"
    unfolding fp_def by (rule four_digits_value) simp
  have iv: "nat_of_digits ip = rounded4 x div 10000"
    unfolding ip_def by (rule nat_of_digits_str_nat)
  have len: "length fp = 4" by (simp add: fp_def)
  have "real (rounded4 x) = real (rounded4 x div 10000 * 10000 + rounded4 x mod 10000)"
    by simp
  also have "\<dots> = real (rounded4 x div 10000) * 10000 + real (rounded4 x mod 10000)"
    by (simp only: of_nat_add of_nat_mult of_nat_numeral)
  finally have val: "real (nat_of_digits ip) + real (nat_of_digits fp) / 10 ^ length fp =
      real (rounded4 x) / 10000"
    unfolding fv iv len by simp
  have f: "fixed_4f x = (if x < 0 then CHR ''-'' # ip @ CHR ''.'' # fp else ip @ CHR ''.'' # fp)"
    unfolding ip_def fp_def by (simp add: fixed_4f_shape)
  show ?thesis
  proof (cases "x < 0")
    case True
    then show ?thesis
      using decimal_value_parts(2) [of ip fp, OF nodot nm] val f by simp
  next
    case False
    then show ?thesis
      using decimal_value_parts(1) [of ip fp, OF nodot nm] val f by simp
  qed
qed

lemma round_half_even_bounds:
  "real_of_int (round_half_even y) \<le> y + 1 / 2" "y - 1 / 2 \<le> real_of_int (round_half_even y)"
  unfolding round_half_even_def Let_def by (auto; linarith)+

lemma round_half_even_of_int [simp]: "round_half_even (of_int n) = n"
  by (simp add: round_half_even_def)

lemma round_half_even_mono_int:
  "of_int a \<le> y \<Longrightarrow> a \<le> round_half_even y" "y \<le> of_int b \<Longrightarrow> round_half_even y \<le> b"
  unfolding round_half_even_def Let_def by (auto simp: le_floor_iff floor_le_iff; linarith)+

lemma rounded4_unit: "0 \<le> x \<Longrightarrow> x \<le> 1 \<Longrightarrow> rounded4 x \<le> 10000"
  unfolding rounded4_def using round_half_even_mono_int(2) [of "\<bar>x\<bar> * 10000" 10000] by simp


subsection \<open>The arg-max and the maximum\<close>

lemma float_le_not_nan: "float_le x y \<Longrightarrow> \<not> isnan x \<and> \<not> isnan y"
  by (cases x; cases y) simp_all

lemma float_le_total: "\<not> isnan x \<Longrightarrow> \<not> isnan y \<Longrightarrow> float_le x y \<or> float_le y x"
  by (cases x; cases y) auto

lemma float_le_trans: "float_le x y \<Longrightarrow> float_le y z \<Longrightarrow> float_le x z"
  by (cases x; cases y; cases z) simp_all

lemma float_le_refl: "\<not> isnan x \<Longrightarrow> float_le x x"
  by (cases x) simp_all

lemma np_maximum_Finite: "np_maximum (Finite a) (Finite b) = Finite (max a b)"
  by (simp add: np_maximum_def max_def)

lemma fold_np_maximum_nan: "isnan acc \<Longrightarrow> fold (\<lambda>y acc. np_maximum acc y) xs acc = acc"
  by (induction xs) (simp_all add: np_maximum_def)

lemma argmax_loop_spec:
  assumes "best_i < length pre" "pre ! best_i = best" "\<not> isnan best"
    and "\<forall>j < length pre. float_le (pre ! j) best"
  shows "argmax_loop best best_i (length pre) xs < length (pre @ xs) \<and>
         (pre @ xs) ! argmax_loop best best_i (length pre) xs =
           fold (\<lambda>y acc. np_maximum acc y) xs best \<and>
         (isnan (fold (\<lambda>y acc. np_maximum acc y) xs best) \<or>
          (\<forall>j < length (pre @ xs).
             float_le ((pre @ xs) ! j) (fold (\<lambda>y acc. np_maximum acc y) xs best)))"
  using assms
proof (induction xs arbitrary: best best_i pre)
  case Nil
  then show ?case by simp
next
  case (Cons x xs)
  let ?pre = "pre @ [x]"
  show ?case
  proof (cases "float_le x best")
    case True
    then have mx: "np_maximum best x = best" by (simp add: np_maximum_def)
    have b1: "best_i < length ?pre" using Cons.prems(1) by simp
    have b2: "?pre ! best_i = best" using Cons.prems(1,2) by (simp add: nth_append)
    have b4: "\<forall>j < length ?pre. float_le (?pre ! j) best"
      using Cons.prems(4) True by (auto simp: nth_append less_Suc_eq)
    from Cons.IH [OF b1 b2 Cons.prems(3) b4] True mx show ?thesis by simp
  next
    case False
    with Cons.prems(3) have mx: "np_maximum best x = x" by (simp add: np_maximum_def)
    show ?thesis
    proof (cases "isnan x")
      case True
      then have "fold (\<lambda>y acc. np_maximum acc y) xs x = x" by (rule fold_np_maximum_nan)
      with True False mx show ?thesis by simp
    next
      case nn: False
      from float_le_total [OF nn Cons.prems(3)] False have bx: "float_le best x" by blast
      have a1: "length pre < length ?pre" by simp
      have a2: "?pre ! length pre = x" by simp
      have a4: "\<forall>j < length ?pre. float_le (?pre ! j) x"
        using Cons.prems(4) bx float_le_refl [OF nn]
        by (auto simp: nth_append less_Suc_eq intro: float_le_trans)
      from Cons.IH [OF a1 a2 nn a4] False nn mx show ?thesis by simp
    qed
  qed
qed

lemma np_max_single:
  "row \<noteq> [] \<Longrightarrow> np_max [row] = Inr (fold (\<lambda>y acc. np_maximum acc y) (tl row) (hd row))"
  by (cases row) (simp_all add: np_max_def)

lemma np_argmax_spec:
  assumes "v \<noteq> []"
  shows "\<exists>i. np_argmax v = Inr i \<and> i < length v \<and>
           v ! i = fold (\<lambda>y acc. np_maximum acc y) (tl v) (hd v) \<and>
           (isnan (v ! i) \<or> (\<forall>j < length v. float_le (v ! j) (v ! i)))"
proof -
  from assms obtain x xs where v: "v = x # xs" by (cases v) auto
  show ?thesis
  proof (cases "isnan x")
    case True
    then have "fold (\<lambda>y acc. np_maximum acc y) xs x = x" by (rule fold_np_maximum_nan)
    with True show ?thesis by (simp add: v np_argmax_def)
  next
    case False
    define i where "i = argmax_loop x 0 (length [x]) xs"
    have "argmax_loop x 0 (length [x]) xs < length ([x] @ xs) \<and>
         ([x] @ xs) ! argmax_loop x 0 (length [x]) xs =
           fold (\<lambda>y acc. np_maximum acc y) xs x \<and>
         (isnan (fold (\<lambda>y acc. np_maximum acc y) xs x) \<or>
          (\<forall>j < length ([x] @ xs).
             float_le (([x] @ xs) ! j) (fold (\<lambda>y acc. np_maximum acc y) xs x)))"
      by (rule argmax_loop_spec) (use False float_le_refl in auto)
    then have s: "i < length v" "v ! i = fold (\<lambda>y acc. np_maximum acc y) xs x"
      "isnan (fold (\<lambda>y acc. np_maximum acc y) xs x) \<or>
         (\<forall>j < length v. float_le (v ! j) (fold (\<lambda>y acc. np_maximum acc y) xs x))"
      unfolding i_def [symmetric] v by simp_all
    have "np_argmax v = Inr i" using False by (simp add: v np_argmax_def i_def)
    with s show ?thesis unfolding v by (intro exI [of _ i]) auto
  qed
qed

lemma fold_np_maximum_mem: "fold (\<lambda>y acc. np_maximum acc y) xs x \<in> set (x # xs)"
proof (induction xs arbitrary: x)
  case Nil
  then show ?case by simp
next
  case (Cons y ys)
  have ih: "fold (\<lambda>y acc. np_maximum acc y) ys (np_maximum x y) \<in> set (np_maximum x y # ys)"
    by (rule Cons.IH)
  have "np_maximum x y = x \<or> np_maximum x y = y" by (simp add: np_maximum_def)
  with ih have "fold (\<lambda>y acc. np_maximum acc y) ys (np_maximum x y) \<in> set (x # y # ys)" by auto
  then show ?case by simp
qed

lemma np_max_mem:
  assumes "np_max a = Inr c"
  shows "c \<in> set (concat a)"
proof (cases "concat a")
  case Nil
  with assms show ?thesis by (simp add: np_max_def)
next
  case (Cons x xs)
  with assms have "c = fold (\<lambda>y acc. np_maximum acc y) xs x" by (simp add: np_max_def)
  then show ?thesis using fold_np_maximum_mem [of xs x] unfolding Cons by simp
qed

lemma main_success_steps:
  assumes "main pf argv = (out, Inr ())"
  shows "\<exists>contents img_bytes model img_array preds.
           2 \<le> length argv \<and> files pf (argv ! 1) = Inr contents \<and>
           b64decode pf (strip contents) = Inr img_bytes \<and>
           load_model pf model_path = Inr model \<and>
           load_and_preprocess_image_from_bytes pf img_bytes (150, 150) = Inr img_array \<and>
           predict pf model img_array = Inr preds \<and> main_report preds = (out, Inr ())"
  using assms
  by (auto simp: main_def main_classify_def Let_def split: if_splits sum.splits)

lemma main_report_success:
  assumes "main_report preds = (out, Inr ())"
  shows "\<exists>i rest conf.
           np_argmax_axis1 preds = Inr (i # rest) \<and> i < length class_names \<and>
           np_max preds = Inr conf \<and> out = [class_names ! i @ ''|'' @ format_4f conf]"
proof -
  from assms obtain indices i label conf where s:
    "np_argmax_axis1 preds = Inr indices" "getitem indices 0 = Inr i"
    "getitem class_names i = Inr label" "np_max preds = Inr conf"
    "out = [label @ ''|'' @ format_4f conf]"
    by (auto simp: main_report_def split: sum.splits)
  from s(2) obtain rest where "indices = i # rest"
    by (cases indices) (auto simp: getitem_def)
  moreover from s(3) have "i < length class_names" "label = class_names ! i"
    by (auto simp: getitem_def split: if_splits)
  ultimately show ?thesis using s by blast
qed

lemma main_failure_silent:
  assumes "2 \<le> length argv" "main pf argv = (out, Inl x)"
  shows "out = [] \<and> (\<exists>e. x = Raised e)"
  using assms
  by (auto simp: main_def main_classify_def main_report_def Let_def split: if_splits sum.splits)


subsection \<open>The prediction report\<close>

text \<open>
  Claim C10. When the prediction has exactly one row, the maximum over the whole array
  is the entry of that row at the predicted index, which is the arg-max of the row; no
  entry of the row is greater, and when that entry is no NaN every entry is less or
  equal (for a row of finite values: less or equal as real numbers). When the row has
  two entries the index is 0 or 1, the lookup in \<^verbatim>\<open>class_names\<close> is in bounds, and the
  line printed names the class of that index with the value at that index. (An empty
  row has no arg-max: \<^verbatim>\<open>np.argmax\<close> raises.)
\<close>

theorem one_row_confidence_is_entry_at_predicted_index:
  assumes "row \<noteq> []"
  shows "\<exists>i < length row.
           np_argmax_axis1 [row] = Inr [i] \<and> getitem [i] 0 = Inr i \<and>
           np_max [row] = Inr (row ! i) \<and>
           (\<forall>j < length row. \<not> float_lt (row ! i) (row ! j)) \<and>
           (\<not> isnan (row ! i) \<longrightarrow> (\<forall>j < length row. float_le (row ! j) (row ! i))) \<and>
           (\<forall>r. row = map Finite r \<longrightarrow> (\<forall>j < length r. r ! j \<le> r ! i)) \<and>
           (length row = 2 \<longrightarrow>
              (i = 0 \<or> i = 1) \<and> getitem class_names i = Inr (class_names ! i) \<and>
              main_report [row] = ([class_names ! i @ ''|'' @ format_4f (row ! i)], Inr ()))"
proof -
  from np_argmax_spec [OF assms] obtain i where i:
    "np_argmax row = Inr i" "i < length row"
    "row ! i = fold (\<lambda>y acc. np_maximum acc y) (tl row) (hd row)"
    "isnan (row ! i) \<or> (\<forall>j < length row. float_le (row ! j) (row ! i))"
    by blast
  have am: "np_argmax_axis1 [row] = Inr [i]" using i(1) by simp
  have gi: "getitem [i] 0 = Inr i" by (simp add: getitem_def)
  have mx: "np_max [row] = Inr (row ! i)" using np_max_single [OF assms] i(3) by simp
  have le: "\<forall>j < length row. float_le (row ! j) (row ! i)" if "\<not> isnan (row ! i)"
    using i(4) that by blast
  have ngt: "\<not> float_lt (row ! i) (row ! j)" if "j < length row" for j
  proof (cases "isnan (row ! i)")
    case True
    then show ?thesis using float_le_not_nan [of "row ! i" "row ! j"] by (auto simp: float_lt_def)
  next
    case False
    with le that show ?thesis by (simp add: float_lt_def)
  qed
  have fin: "r ! j \<le> r ! i" if "row = map Finite r" "j < length r" for r j
  proof -
    from that i(2) have "row ! i = Finite (r ! i)" "row ! j = Finite (r ! j)" "j < length row"
      by simp_all
    with le show ?thesis by fastforce
  qed
  have two: "(i = 0 \<or> i = 1) \<and> getitem class_names i = Inr (class_names ! i) \<and>
      main_report [row] = ([class_names ! i @ ''|'' @ format_4f (row ! i)], Inr ())"
    if "length row = 2"
  proof -
    from that i(2) have lt: "i < 2" by simp
    then have c: "getitem class_names i = Inr (class_names ! i)"
      by (simp add: getitem_def class_names_def)
    from lt have "i = 0 \<or> i = 1" by auto
    moreover have "main_report [row] = ([class_names ! i @ ''|'' @ format_4f (row ! i)], Inr ())"
      unfolding main_report_def by (simp only: am gi c mx sum.case)
    ultimately show ?thesis using c by blast
  qed
  show ?thesis using i(2) am gi mx ngt le fin two by blast
qed

theorem one_row_confidence_is_entry_at_predicted_index_witness:
  "[Finite 0.3, Finite 0.7] \<noteq> [] \<and>
   np_argmax_axis1 [[Finite 0.3, Finite 0.7]] = Inr [1] \<and>
   np_max [[Finite 0.3, Finite 0.7]] = Inr (Finite 0.7) \<and>
   main_report [[Finite 0.3, Finite 0.7]] = ([''Scarlet Sage|0.7000''], Inr ())"
proof -
  have ne: "[Finite 0.3, Finite 0.7] \<noteq> []" by simp
  from one_row_confidence_is_entry_at_predicted_index [OF ne] obtain i where i:
    "np_argmax_axis1 [[Finite 0.3, Finite 0.7]] = Inr [i]"
    "np_max [[Finite 0.3, Finite 0.7]] = Inr ([Finite 0.3, Finite 0.7] ! i)"
    "main_report [[Finite 0.3, Finite 0.7]] =
       ([class_names ! i @ ''|'' @ format_4f ([Finite 0.3, Finite 0.7] ! i)], Inr ())"
    by auto
  have "np_argmax_axis1 [[Finite 0.3, Finite 0.7]] = Inr [1]" by (simp add: np_argmax_def)
  with i(1) have i1: "i = 1" by simp
  have f: "fixed_4f 0.7 = ''0.7000''"
    by (simp add: fixed_4f_def round_half_even_def str_nat.simps digit_char_def Let_def)
  show ?thesis using ne i f unfolding i1 by (simp add: class_names_def)
qed

text \<open>
  Claim C1. For a prediction \<open>[[a, b]]\<close> the script prints the class name at the index
  of the maximum, index 0 on a tie, and the maximum itself as the confidence:
  \<^verbatim>\<open>Marigold|0.9000\<close> for \<open>[0.9, 0.1]\<close> and \<^verbatim>\<open>Scarlet Sage|0.8000\<close> for
  \<open>[0.2, 0.8]\<close>. For two floats of any kind the index and the value are numpy's, for
  which a NaN is the maximum.
\<close>

theorem two_class_prediction_report:
  "main_report [[Finite a, Finite b]] =
     ([class_names ! (if a < b then 1 else 0) @ ''|'' @ format_4f (Finite (max a b))], Inr ()) \<and>
   main_report [[Finite 0.9, Finite 0.1]] = ([''Marigold|0.9000''], Inr ()) \<and>
   main_report [[Finite 0.2, Finite 0.8]] = ([''Scarlet Sage|0.8000''], Inr ()) \<and>
   main_report [[x, y]] =
     ([class_names ! (if isnan x \<or> float_le y x then 0 else 1) @ ''|'' @
       format_4f (np_maximum x y)], Inr ())"
proof -
  have gen: "main_report [[x, y]] =
     ([class_names ! (if isnan x \<or> float_le y x then 0 else 1) @ ''|'' @
       format_4f (np_maximum x y)], Inr ())" for x y
    by (simp add: main_report_def np_argmax_def getitem_def class_names_def np_max_def)
  have g: "main_report [[Finite a, Finite b]] =
     ([class_names ! (if a < b then 1 else 0) @ ''|'' @ format_4f (Finite (max a b))], Inr ())"
    for a b
    unfolding gen np_maximum_Finite by (simp add: not_less [symmetric])
  have f9: "fixed_4f 0.9 = ''0.9000''" and f8: "fixed_4f 0.8 = ''0.8000''"
    by (simp_all add: fixed_4f_def round_half_even_def str_nat.simps digit_char_def Let_def)
  have "main_report [[Finite 0.9, Finite 0.1]] = ([''Marigold|0.9000''], Inr ())"
    using g [of "0.9" "0.1"] f9 by (simp add: class_names_def)
  moreover have "main_report [[Finite 0.2, Finite 0.8]] = ([''Scarlet Sage|0.8000''], Inr ())"
    using g [of "0.2" "0.8"] f8 by (simp add: class_names_def)
  ultimately show ?thesis using g gen by blast
qed

subsection \<open>Runs of the script\<close>

lemma toy_files_flower:
  "files (toy_platform a) ''flower.b64'' = Inr (codepoints '' AgLMgAA=  '')"
  by (simp add: toy_platform_def toy_files_def)

lemma strip_toy: "strip (codepoints '' AgLMgAA=  '') = codepoints ''AgLMgAA=''"
  by (simp add: strip_def isspace_def codepoints_def)

lemma toy_preprocess:
  "load_and_preprocess_image_from_bytes (toy_platform a) [2, 2, 204, 128, 0] (150, 150) =
     Inr [replicate 150 (replicate 150 [4 / 5, 128 / 255, 0])]"
  by (simp add: load_and_preprocess_image_from_bytes_def toy_platform_def toy_open_def
      toy_array_def np_divide_def np_expand_dims0_def)

lemma toy_b64decode_flower:
  "b64decode (toy_platform a) (codepoints ''AgLMgAA='') = Inr [2, 2, 204, 128, 0]"
  by (simp add: toy_platform_def toy_b64decode_def)

lemma toy_load_model: "load_model (toy_platform a) model_path = Inr a"
  by (simp add: toy_platform_def model_path_def)

lemma toy_predict: "predict (toy_platform a) m x = Inr m"
  by (simp add: toy_platform_def)

lemma toy_main:
  "main (toy_platform a) [''predict.py'', ''flower.b64''] = main_report a"
  by (simp add: main_def main_classify_def Let_def toy_files_flower strip_toy toy_b64decode_flower
      toy_load_model toy_preprocess toy_predict)

text \<open>
  Claim C2. Run with no argument after the program name, the script prints exactly the
  line \<^verbatim>\<open>Error|0.0\<close> and exits with code 1; the exit is \<^verbatim>\<open>sys.exit(1)\<close>, no traceback.
\<close>
theorem missing_argument_sentinel:
  assumes "length argv < 2"
  shows "stdout (script pf env argv) = [''Error|0.0''] \<and> exit_code (script pf env argv) = 1 \<and>
         traceback (script pf env argv) = None"
  using assms by (simp add: script_def main_def)

theorem missing_argument_sentinel_witness:
  "length [''predict.py''] < 2 \<and>
   stdout (script (toy_platform [[Finite 0.9, Finite 0.1]]) Map.empty [''predict.py'']) = [''Error|0.0''] \<and>
   exit_code (script (toy_platform [[Finite 0.9, Finite 0.1]]) Map.empty [''predict.py'']) = 1"
  using missing_argument_sentinel [of "[''predict.py'']" "toy_platform [[Finite 0.9, Finite 0.1]]" Map.empty]
  by simp

lemma strip_decomposition:
  "\<exists>pre suf. s = pre @ strip s @ suf \<and> list_all isspace pre \<and> list_all isspace suf"
proof -
  define d where "d = dropWhile isspace s"
  have s: "s = takeWhile isspace s @ d" by (simp add: d_def)
  have "rev (rev d) = rev (dropWhile isspace (rev d)) @ rev (takeWhile isspace (rev d))"
    by (metis rev_append takeWhile_dropWhile_id)
  then have d: "d = strip s @ rev (takeWhile isspace (rev d))"
    unfolding strip_def d_def by simp
  have p1: "list_all isspace (takeWhile isspace s)"
    by (simp add: list_all_iff) (meson set_takeWhileD)
  have p2: "list_all isspace (rev (takeWhile isspace (rev d)))"
    by (simp add: list_all_iff) (meson set_takeWhileD)
  from s d have "s = takeWhile isspace s @ strip s @ rev (takeWhile isspace (rev d))" by simp
  with p1 p2 show ?thesis by blast
qed

lemma strip_ends:
  assumes "strip s \<noteq> []"
  shows "\<not> isspace (hd (strip s)) \<and> \<not> isspace (last (strip s))"
proof -
  define d where "d = dropWhile isspace s"
  define r where "r = dropWhile isspace (rev d)"
  have st: "strip s = rev r" by (simp add: strip_def d_def r_def)
  with assms have rne: "r \<noteq> []" by simp
  then have "\<not> isspace (hd r)" unfolding r_def by (rule hd_dropWhile)
  then have l: "\<not> isspace (last (strip s))" using rne by (simp add: st last_rev)
  have "rev (rev d) = rev (dropWhile isspace (rev d)) @ rev (takeWhile isspace (rev d))"
    by (metis rev_append takeWhile_dropWhile_id)
  then have dd: "d = rev r @ rev (takeWhile isspace (rev d))" unfolding r_def by simp
  with rne have "hd d = hd (rev r)" by (metis hd_append2 rev_is_Nil_conv)
  moreover have "d \<noteq> []" using dd rne by auto
  then have "\<not> isspace (hd d)" unfolding d_def by (rule hd_dropWhile)
  ultimately show ?thesis using l st by simp
qed

lemma class_name_no_bar: "label \<in> set class_names \<Longrightarrow> CHR ''|'' \<notin> set label"
  by (auto simp: class_names_def)

lemma script_of_main:
  "main pf argv = (out, r) \<Longrightarrow>
   script pf env argv =
     \<lparr>environ = import_environ pf (env(''TF_CPP_MIN_LOG_LEVEL'' \<mapsto> ''3'')), stdout = out,
      traceback = uncaught r, exit_code = exit_status r\<rparr>"
  by (simp add: script_def)

lemma toy_report_09:
  "main (toy_platform [[Finite 0.9, Finite 0.1]]) [''predict.py'', ''flower.b64''] =
     ([''Marigold|0.9000''], Inr ())"
proof -
  have f9: "fixed_4f 0.9 = ''0.9000''"
    by (simp add: fixed_4f_def round_half_even_def str_nat.simps digit_char_def Let_def)
  have "main_report [[Finite 0.9, Finite 0.1]] = ([''Marigold|0.9000''], Inr ())"
    by (simp add: main_report_def np_argmax_def getitem_def class_names_def np_max_def
        np_maximum_def f9)
  then show ?thesis by (simp only: toy_main)
qed

lemma probability_is_finite:
  assumes "probability_model pf" "load_model pf model_path = Inr m" "predict pf m x = Inr preds"
    and "c \<in> set (concat preds)"
  shows "\<exists>r. c = Finite r \<and> 0 \<le> r \<and> r \<le> 1"
proof -
  from assms(1-3) have
    "list_all (list_all (\<lambda>p. case p of Finite r \<Rightarrow> 0 \<le> r \<and> r \<le> 1 | _ \<Rightarrow> False)) preds"
    unfolding probability_model_def by blast
  with assms(4) have "case c of Finite r \<Rightarrow> 0 \<le> r \<and> r \<le> 1 | _ \<Rightarrow> False"
    by (auto simp: list_all_iff)
  then show ?thesis by (cases c) simp_all
qed

lemma format_4f_cases:
  "(\<exists>r. conf = Finite r) \<and> four_decimals (format_4f conf) \<or>
   format_4f conf = ''nan'' \<or> format_4f conf = ''inf'' \<or> format_4f conf = ''-inf''"
  by (cases conf) (simp_all add: fixed_4f_four_decimals)

text \<open>
  Claim C3, as the code has it. When \<^verbatim>\<open>main\<close> returns normally, which it does exactly
  when the argument is there and every step succeeded, the script has printed exactly
  one line, a class name, a bar and the confidence, and the process exits with 0. A
  class name has no bar in it, so the line splits in one way only. The confidence has
  exactly four decimals when it is finite, which it is whenever the model's predictions
  are probabilities; an infinite one prints as \<^verbatim>\<open>inf\<close> or \<^verbatim>\<open>-inf\<close> and a NaN as
  \<^verbatim>\<open>nan\<close>.
\<close>

theorem successful_run_prints_one_line_four_decimals_when_finite:
  assumes "snd (main pf argv) = Inr ()"
  shows "\<exists>label conf.
           label \<in> set class_names \<and> CHR ''|'' \<notin> set label \<and>
           stdout (script pf env argv) = [label @ ''|'' @ format_4f conf] \<and>
           ((\<exists>r. conf = Finite r) \<longrightarrow> four_decimals (format_4f conf)) \<and>
           (probability_model pf \<longrightarrow> four_decimals (format_4f conf)) \<and>
           (four_decimals (format_4f conf) \<or> format_4f conf = ''nan'' \<or>
            format_4f conf = ''inf'' \<or> format_4f conf = ''-inf'') \<and>
           exit_code (script pf env argv) = 0 \<and> traceback (script pf env argv) = None"
proof -
  from assms obtain out where m: "main pf argv = (out, Inr ())"
    by (cases "main pf argv") simp
  from main_success_steps [OF m] obtain model img_array preds where p:
    "load_model pf model_path = Inr model" "predict pf model img_array = Inr preds"
    "main_report preds = (out, Inr ())"
    by blast
  from main_report_success [OF p(3)] obtain i conf where r:
    "i < length class_names" "np_max preds = Inr conf"
    "out = [class_names ! i @ ''|'' @ format_4f conf]"
    by blast
  from r(1) have l: "class_names ! i \<in> set class_names" by simp
  have fin: "four_decimals (format_4f conf)" if "\<exists>r. conf = Finite r"
    using that by (auto simp: fixed_4f_four_decimals)
  have pm: "four_decimals (format_4f conf)" if "probability_model pf"
    using probability_is_finite [OF that p(1,2) np_max_mem [OF r(2)]] fin by blast
  show ?thesis
    using l class_name_no_bar [OF l] r(3) fin pm format_4f_cases [of conf]
    by (auto simp: script_of_main [OF m])
qed

theorem successful_run_prints_one_line_four_decimals_when_finite_witness:
  "snd (main (toy_platform [[Finite 0.9, Finite 0.1]]) [''predict.py'', ''flower.b64'']) = Inr () \<and>
   stdout (script (toy_platform [[Finite 0.9, Finite 0.1]]) Map.empty
     [''predict.py'', ''flower.b64'']) = [''Marigold|0.9000''] \<and>
   four_decimals ''0.9000'' \<and>
   exit_code (script (toy_platform [[Finite 0.9, Finite 0.1]]) Map.empty
     [''predict.py'', ''flower.b64'']) = 0"
proof -
  note m = toy_report_09
  then have s: "snd (main (toy_platform [[Finite 0.9, Finite 0.1]])
      [''predict.py'', ''flower.b64'']) = Inr ()"
    by simp
  have fd: "four_decimals ''0.9000''"
    by (simp add: four_decimals_def is_digit_def Let_def)
  from successful_run_prints_one_line_four_decimals_when_finite [OF s, of Map.empty]
  have "exit_code (script (toy_platform [[Finite 0.9, Finite 0.1]]) Map.empty
      [''predict.py'', ''flower.b64'']) = 0"
    by blast
  then show ?thesis using s fd by (simp add: script_of_main [OF m])
qed

text \<open>
  The claim as the spec has it, four decimals on every successful run, fails when the
  model answers with a NaN: the run succeeds, exits with 0 and prints \<^verbatim>\<open>Marigold|nan\<close>,
  which is no class name followed by a bar and a number with four decimals.
\<close>

theorem nan_prediction_prints_no_decimals:
  "snd (main (toy_platform [[NaN, Finite 0.1]]) [''predict.py'', ''flower.b64'']) = Inr () \<and>
   exit_code (script (toy_platform [[NaN, Finite 0.1]]) Map.empty
     [''predict.py'', ''flower.b64'']) = 0 \<and>
   stdout (script (toy_platform [[NaN, Finite 0.1]]) Map.empty
     [''predict.py'', ''flower.b64'']) = [''Marigold|nan''] \<and>
   \<not> (\<exists>label t. label \<in> set class_names \<and> ''Marigold|nan'' = label @ ''|'' @ t \<and>
         four_decimals t)"
proof -
  have "main_report [[NaN, Finite 0.1]] = ([''Marigold|nan''], Inr ())"
    by (simp add: main_report_def np_argmax_def getitem_def class_names_def np_max_def
        np_maximum_def)
  then have m: "main (toy_platform [[NaN, Finite 0.1]]) [''predict.py'', ''flower.b64''] =
      ([''Marigold|nan''], Inr ())"
    by (simp only: toy_main)
  have nf: "\<not> four_decimals ''nan''"
    by (simp add: four_decimals_def is_digit_def Let_def)
  have "\<not> (\<exists>label t. label \<in> set class_names \<and> ''Marigold|nan'' = label @ ''|'' @ t \<and>
         four_decimals t)"
    using nf by (auto simp: class_names_def)
  then show ?thesis using m by (simp add: script_of_main [OF m])
qed




text \<open>
  Claim C9. Arguments after the file path are ignored: a run with more arguments is the
  run with the path alone, and two runs with the same path are the same run whatever
  follows the path (and whatever the program name is).
\<close>
theorem arguments_after_the_first_are_ignored:
  "script pf env (prog # path # extra) = script pf env [prog, path] \<and>
   script pf env (prog # path # extra) = script pf env (prog' # path # extra')"
  by (simp add: script_def main_def)

text \<open>
  Claim C7. With a path given and the file read, the text handed to the base64 decoder
  is the file's text without its leading and trailing whitespace (the text is a run of
  whitespace, the stripped text, and a run of whitespace, and the stripped text neither
  starts nor ends with whitespace); the decoder's result is not checked: its exception
  leaves the script uncaught, and its bytes, whatever they are, go on to the rest of
  \<^verbatim>\<open>main\<close>.
\<close>
theorem payload_is_read_stripped_and_decoded:
  assumes "2 \<le> length argv" and "files pf (argv ! 1) = Inr contents"
  shows "(\<exists>pre suf. contents = pre @ strip contents @ suf \<and>
            list_all isspace pre \<and> list_all isspace suf) \<and>
         (strip contents = [] \<or>
            \<not> isspace (hd (strip contents)) \<and> \<not> isspace (last (strip contents))) \<and>
         (\<forall>e. b64decode pf (strip contents) = Inl e \<longrightarrow> main pf argv = ([], Inl (Raised e))) \<and>
         (\<forall>img_bytes. b64decode pf (strip contents) = Inr img_bytes \<longrightarrow>
            main pf argv = main_classify pf img_bytes)"
proof -
  have "main pf argv =
      (case b64decode pf (strip contents) of
         Inl e \<Rightarrow> ([], Inl (Raised e))
       | Inr img_bytes \<Rightarrow> main_classify pf img_bytes)"
    using assms by (simp add: main_def Let_def)
  then have "(\<forall>e. b64decode pf (strip contents) = Inl e \<longrightarrow> main pf argv = ([], Inl (Raised e))) \<and>
         (\<forall>img_bytes. b64decode pf (strip contents) = Inr img_bytes \<longrightarrow>
            main pf argv = main_classify pf img_bytes)"
    by simp
  then show ?thesis
    using strip_decomposition [of contents] strip_ends [of contents] by blast
qed

theorem payload_is_read_stripped_and_decoded_witness:
  "2 \<le> length [''predict.py'', ''flower.b64''] \<and>
   files (toy_platform [[Finite 0.9, Finite 0.1]]) ([''predict.py'', ''flower.b64''] ! 1) =
     Inr (codepoints '' AgLMgAA=  '') \<and>
   strip (codepoints '' AgLMgAA=  '') = codepoints ''AgLMgAA='' \<and>
   b64decode (toy_platform [[Finite 0.9, Finite 0.1]]) (codepoints ''AgLMgAA='') = Inr [2, 2, 204, 128, 0] \<and>
   main (toy_platform [[Finite 0.9, Finite 0.1]]) [''predict.py'', ''flower.b64''] =
     main_classify (toy_platform [[Finite 0.9, Finite 0.1]]) [2, 2, 204, 128, 0]"
proof -
  have l: "2 \<le> length [''predict.py'', ''flower.b64'']" by simp
  have f: "files (toy_platform [[Finite 0.9, Finite 0.1]]) ([''predict.py'', ''flower.b64''] ! 1) =
      Inr (codepoints '' AgLMgAA=  '')"
    by (simp add: toy_files_flower)
  from payload_is_read_stripped_and_decoded [OF l f]
  have "\<forall>img_bytes. b64decode (toy_platform [[Finite 0.9, Finite 0.1]]) (strip (codepoints '' AgLMgAA=  '')) =
        Inr img_bytes \<longrightarrow>
      main (toy_platform [[Finite 0.9, Finite 0.1]]) [''predict.py'', ''flower.b64''] =
      main_classify (toy_platform [[Finite 0.9, Finite 0.1]]) img_bytes"
    by blast
  then show ?thesis using l f by (simp add: strip_toy toy_b64decode_flower)
qed

text \<open>
  Claim C5. With the argument present, a failure of reading the file, of the base64
  decoding, of loading the model, of decoding or resizing the image, or of the
  prediction is not caught: nothing is printed to the standard output, the exception is
  the one the failing call raised, the exit code is 1. A damaged image is such a failure
  of the preprocessing. More generally every run with the argument present in which
  \<^verbatim>\<open>main\<close> does not return normally prints nothing and ends with an uncaught exception.
\<close>
theorem library_failures_are_uncaught:
  assumes "2 \<le> length argv"
  shows "(files pf (argv ! 1) = Inl e \<or>
          files pf (argv ! 1) = Inr contents \<and> b64decode pf (strip contents) = Inl e \<or>
          files pf (argv ! 1) = Inr contents \<and> b64decode pf (strip contents) = Inr img_bytes \<and>
            load_model pf model_path = Inl e \<or>
          files pf (argv ! 1) = Inr contents \<and> b64decode pf (strip contents) = Inr img_bytes \<and>
            load_model pf model_path = Inr model \<and>
            load_and_preprocess_image_from_bytes pf img_bytes (150, 150) = Inl e \<or>
          files pf (argv ! 1) = Inr contents \<and> b64decode pf (strip contents) = Inr img_bytes \<and>
            load_model pf model_path = Inr model \<and>
            load_and_preprocess_image_from_bytes pf img_bytes (150, 150) = Inr img_array \<and>
            predict pf model img_array = Inl e \<longrightarrow>
          stdout (script pf env argv) = [] \<and> traceback (script pf env argv) = Some e \<and>
          exit_code (script pf env argv) = 1) \<and>
         (Image_open pf img_bytes = Inl e \<longrightarrow>
            load_and_preprocess_image_from_bytes pf img_bytes (150, 150) = Inl e) \<and>
         (snd (main pf argv) \<noteq> Inr () \<longrightarrow>
            stdout (script pf env argv) = [] \<and> traceback (script pf env argv) \<noteq> None \<and>
            exit_code (script pf env argv) = 1)"
proof -
  have a: "stdout (script pf env argv) = [] \<and> traceback (script pf env argv) = Some e \<and>
      exit_code (script pf env argv) = 1"
    if "main pf argv = ([], Inl (Raised e))" for e
    by (simp add: script_of_main [OF that])
  have 1: "main pf argv = ([], Inl (Raised e))" if "files pf (argv ! 1) = Inl e"
    using assms that by (simp add: main_def Let_def)
  have 2: "main pf argv = ([], Inl (Raised e))"
    if "files pf (argv ! 1) = Inr contents" "b64decode pf (strip contents) = Inl e"
    using assms that by (simp add: main_def Let_def)
  have 3: "main pf argv = ([], Inl (Raised e))"
    if "files pf (argv ! 1) = Inr contents" "b64decode pf (strip contents) = Inr img_bytes"
      "load_model pf model_path = Inl e"
    using assms that by (simp add: main_def main_classify_def Let_def)
  have 4: "main pf argv = ([], Inl (Raised e))"
    if "files pf (argv ! 1) = Inr contents" "b64decode pf (strip contents) = Inr img_bytes"
      "load_model pf model_path = Inr model"
      "load_and_preprocess_image_from_bytes pf img_bytes (150, 150) = Inl e"
    using assms that by (simp add: main_def main_classify_def Let_def)
  have 5: "main pf argv = ([], Inl (Raised e))"
    if "files pf (argv ! 1) = Inr contents" "b64decode pf (strip contents) = Inr img_bytes"
      "load_model pf model_path = Inr model"
      "load_and_preprocess_image_from_bytes pf img_bytes (150, 150) = Inr img_array"
      "predict pf model img_array = Inl e"
    using assms that by (simp add: main_def main_classify_def Let_def)
  have img: "load_and_preprocess_image_from_bytes pf img_bytes (150, 150) = Inl e"
    if "Image_open pf img_bytes = Inl e"
    using that by (simp add: load_and_preprocess_image_from_bytes_def)
  have gen: "stdout (script pf env argv) = [] \<and> traceback (script pf env argv) \<noteq> None \<and>
      exit_code (script pf env argv) = 1"
    if "snd (main pf argv) \<noteq> Inr ()"
  proof -
    obtain out r where m: "main pf argv = (out, r)" by (cases "main pf argv")
    with that obtain x where r: "r = Inl x" by (cases r) auto
    from main_failure_silent [OF assms m [unfolded r]] obtain e' where
      "out = []" "x = Raised e'" by blast
    then show ?thesis by (simp add: script_of_main [OF m] r)
  qed
  show ?thesis using a 1 2 3 4 5 img gen by blast
qed

lemma np_divide_shape:
  "has_shape3 s a \<Longrightarrow> has_shape3 s (np_divide a d)"
  by (cases s) (auto simp: has_shape3_def np_divide_def list_all_iff)

lemma nat_over_255: "n \<le> 255 \<Longrightarrow> 0 \<le> real n / 255 \<and> real n / 255 \<le> 1"
  by simp

lemma byte_over_255: "0 \<le> real (unat (v :: 8 word)) / 255 \<and> real (unat v) / 255 \<le> 1"
proof -
  have "unat v < 2 ^ 8" using unsigned_less [of v] by simp
  then have "unat v \<le> 255" by simp
  then show ?thesis by (rule nat_over_255)
qed

lemma np_divide_255_range:
  "list_all (list_all (list_all (\<lambda>v. 0 \<le> v \<and> v \<le> 1))) (np_divide a 255)"
  using byte_over_255 by (simp add: np_divide_def list_all_iff)

lemma preprocess_success:
  assumes "load_and_preprocess_image_from_bytes pf img_bytes sz = Inr t"
  shows "\<exists>opened rgb img. Image_open pf img_bytes = Inr opened \<and>
           convert pf opened ''RGB'' = Inr rgb \<and> resize pf rgb sz = Inr img \<and>
           t = [np_divide (np_array pf img) 255]"
  using assms
  by (auto simp: load_and_preprocess_image_from_bytes_def np_expand_dims0_def Let_def
      split: sum.splits)

theorem library_failures_are_uncaught_witness:
  "traceback (script (toy_platform [[Finite 0.9, Finite 0.1]]) Map.empty [''predict.py'', ''missing.b64'']) =
     Some OSError \<and>
   stdout (script (toy_platform [[Finite 0.9, Finite 0.1]]) Map.empty [''predict.py'', ''missing.b64'']) = [] \<and>
   exit_code (script (toy_platform [[Finite 0.9, Finite 0.1]]) Map.empty [''predict.py'', ''missing.b64'']) = 1 \<and>
   traceback (script (toy_platform [[Finite 0.9, Finite 0.1]]) Map.empty [''predict.py'', ''broken.b64'']) =
     Some BinasciiError \<and>
   stdout (script (toy_platform [[Finite 0.9, Finite 0.1]]) Map.empty [''predict.py'', ''broken.b64'']) = [] \<and>
   traceback (script (toy_platform [[Finite 0.9, Finite 0.1]]) Map.empty [''predict.py'', ''note.b64'']) =
     Some UnidentifiedImageError \<and>
   stdout (script (toy_platform [[Finite 0.9, Finite 0.1]]) Map.empty [''predict.py'', ''note.b64'']) = [] \<and>
   traceback (script ((toy_platform [[Finite 0.9, Finite 0.1]])\<lparr>load_model := \<lambda>path. Inl ModelLoadError\<rparr>)
      Map.empty [''predict.py'', ''flower.b64'']) = Some ModelLoadError \<and>
   stdout (script ((toy_platform [[Finite 0.9, Finite 0.1]])\<lparr>load_model := \<lambda>path. Inl ModelLoadError\<rparr>)
      Map.empty [''predict.py'', ''flower.b64'']) = [] \<and>
   traceback (script ((toy_platform [[Finite 0.9, Finite 0.1]])\<lparr>predict := \<lambda>m x. Inl InferenceError\<rparr>)
      Map.empty [''predict.py'', ''flower.b64'']) = Some InferenceError \<and>
   stdout (script ((toy_platform [[Finite 0.9, Finite 0.1]])\<lparr>predict := \<lambda>m x. Inl InferenceError\<rparr>)
      Map.empty [''predict.py'', ''flower.b64'']) = []"
proof -
  let ?pf = "toy_platform [[Finite 0.9, Finite 0.1]]"
  let ?pm = "(toy_platform [[Finite 0.9, Finite 0.1]])\<lparr>load_model := \<lambda>path. Inl ModelLoadError\<rparr>"
  let ?pp = "(toy_platform [[Finite 0.9, Finite 0.1]])\<lparr>predict := \<lambda>m x. Inl InferenceError\<rparr>"
  have len: "2 \<le> length [''predict.py'', p]" for p :: string by simp
  have f1: "files ?pf ([''predict.py'', ''missing.b64''] ! 1) = Inl OSError"
    by (simp add: toy_platform_def toy_files_def)
  have f2: "files ?pf ([''predict.py'', ''broken.b64''] ! 1) = Inr (codepoints ''A'')"
    by (simp add: toy_platform_def toy_files_def)
  have d2: "b64decode ?pf (strip (codepoints ''A'')) = Inl BinasciiError"
    by (simp add: toy_platform_def toy_b64decode_def strip_def isspace_def codepoints_def)
  have f3: "files ?pf ([''predict.py'', ''note.b64''] ! 1) = Inr (codepoints ''aGk='' @ [10])"
    by (simp add: toy_platform_def toy_files_def)
  have d3: "b64decode ?pf (strip (codepoints ''aGk='' @ [10])) = Inr [104, 105]"
    by (simp add: toy_platform_def toy_b64decode_def strip_def isspace_def codepoints_def)
  have m3: "load_model ?pf model_path = Inr [[Finite 0.9, Finite 0.1]]"
    by (rule toy_load_model)
  have i3: "load_and_preprocess_image_from_bytes ?pf [104, 105] (150, 150) =
      Inl UnidentifiedImageError"
    by (simp add: load_and_preprocess_image_from_bytes_def toy_platform_def toy_open_def)
  have f4: "files ?pm ([''predict.py'', ''flower.b64''] ! 1) = Inr (codepoints '' AgLMgAA=  '')"
    by (simp add: toy_platform_def toy_files_def)
  have d4: "b64decode ?pm (strip (codepoints '' AgLMgAA=  '')) = Inr [2, 2, 204, 128, 0]"
    by (simp add: strip_toy) (simp add: toy_platform_def toy_b64decode_def)
  have m4: "load_model ?pm model_path = Inl ModelLoadError"
    by simp
  have f5: "files ?pp ([''predict.py'', ''flower.b64''] ! 1) = Inr (codepoints '' AgLMgAA=  '')"
    by (simp add: toy_platform_def toy_files_def)
  have d5: "b64decode ?pp (strip (codepoints '' AgLMgAA=  '')) = Inr [2, 2, 204, 128, 0]"
    by (simp add: strip_toy) (simp add: toy_platform_def toy_b64decode_def)
  have m5: "load_model ?pp model_path = Inr [[Finite 0.9, Finite 0.1]]"
    by (simp add: toy_platform_def model_path_def)
  have i5: "load_and_preprocess_image_from_bytes ?pp [2, 2, 204, 128, 0] (150, 150) =
      Inr [replicate 150 (replicate 150 [4 / 5, 128 / 255, 0])]"
    by (simp add: load_and_preprocess_image_from_bytes_def toy_platform_def toy_open_def
        toy_array_def np_divide_def np_expand_dims0_def)
  have p5: "predict ?pp [[Finite 0.9, Finite 0.1]] [replicate 150 (replicate 150 [4 / 5, 128 / 255, 0])] =
      Inl InferenceError"
    by simp
  note r1 = library_failures_are_uncaught [OF len, of ?pf "''missing.b64''" OSError
      _ _ _ _ Map.empty]
  note r2 = library_failures_are_uncaught [OF len, of ?pf "''broken.b64''" BinasciiError
      "codepoints ''A''" _ _ _ Map.empty]
  note r3 = library_failures_are_uncaught [OF len, of ?pf "''note.b64''" UnidentifiedImageError
      "codepoints ''aGk='' @ [10]" "[104, 105]" "[[Finite 0.9, Finite 0.1]]" _ Map.empty]
  note r4 = library_failures_are_uncaught [OF len, of ?pm "''flower.b64''" ModelLoadError
      "codepoints '' AgLMgAA=  ''" "[2, 2, 204, 128, 0]" _ _ Map.empty]
  note r5 = library_failures_are_uncaught [OF len, of ?pp "''flower.b64''" InferenceError
      "codepoints '' AgLMgAA=  ''" "[2, 2, 204, 128, 0]" "[[Finite 0.9, Finite 0.1]]"
      "[replicate 150 (replicate 150 [4 / 5, 128 / 255, 0])]" Map.empty]
  from r1 f1 have c1:
    "stdout (script ?pf Map.empty [''predict.py'', ''missing.b64'']) = [] \<and>
     traceback (script ?pf Map.empty [''predict.py'', ''missing.b64'']) = Some OSError \<and>
     exit_code (script ?pf Map.empty [''predict.py'', ''missing.b64'']) = 1"
    by blast
  from r2 f2 d2 have c2:
    "stdout (script ?pf Map.empty [''predict.py'', ''broken.b64'']) = [] \<and>
     traceback (script ?pf Map.empty [''predict.py'', ''broken.b64'']) = Some BinasciiError \<and>
     exit_code (script ?pf Map.empty [''predict.py'', ''broken.b64'']) = 1"
    by blast
  from r3 f3 d3 m3 i3 have c3:
    "stdout (script ?pf Map.empty [''predict.py'', ''note.b64'']) = [] \<and>
     traceback (script ?pf Map.empty [''predict.py'', ''note.b64'']) = Some UnidentifiedImageError \<and>
     exit_code (script ?pf Map.empty [''predict.py'', ''note.b64'']) = 1"
    by blast
  from r4 f4 d4 m4 have c4:
    "stdout (script ?pm Map.empty [''predict.py'', ''flower.b64'']) = [] \<and>
     traceback (script ?pm Map.empty [''predict.py'', ''flower.b64'']) = Some ModelLoadError \<and>
     exit_code (script ?pm Map.empty [''predict.py'', ''flower.b64'']) = 1"
    by blast
  from r5 f5 d5 m5 i5 p5 have c5:
    "stdout (script ?pp Map.empty [''predict.py'', ''flower.b64'']) = [] \<and>
     traceback (script ?pp Map.empty [''predict.py'', ''flower.b64'']) = Some InferenceError \<and>
     exit_code (script ?pp Map.empty [''predict.py'', ''flower.b64'']) = 1"
    by blast
  from c1 c2 c3 c4 c5 show ?thesis by blast
qed

text \<open>
  Claim C4. Over a Pillow that keeps its documented contract, whenever the
  preprocessing of \<^verbatim>\<open>main\<close> returns (the image was decoded, converted and resized to
  150 by 150), its result has shape (1, 150, 150, 3) and all its values lie between 0
  and 1.
\<close>
theorem preprocessing_shape_and_range:
  assumes "pillow_contract pf"
    and "load_and_preprocess_image_from_bytes pf img_bytes (150, 150) = Inr t"
  shows "has_shape4 (1, 150, 150, 3) t \<and> all_values4 (\<lambda>v. 0 \<le> v \<and> v \<le> 1) t"
proof -
  from preprocess_success [OF assms(2)] obtain opened rgb img where s:
    "convert pf opened ''RGB'' = Inr rgb" "resize pf rgb (150, 150) = Inr img"
    "t = [np_divide (np_array pf img) 255]"
    by blast
  from assms(1) s(1) have "img_mode pf rgb = ''RGB''"
    unfolding pillow_contract_def by blast
  moreover from assms(1) s(2) have "img_size pf img = (150, 150)" "img_mode pf img = img_mode pf rgb"
    unfolding pillow_contract_def by blast+
  ultimately have "img_mode pf img = ''RGB''" "img_size pf img = (150, 150)" by simp_all
  with assms(1) have "has_shape3 (150, 150, 3) (np_array pf img)"
    unfolding pillow_contract_def by (metis fst_conv snd_conv)
  then have "has_shape3 (150, 150, 3) (np_divide (np_array pf img) 255)"
    by (rule np_divide_shape)
  then have "has_shape4 (1, 150, 150, 3) t"
    by (simp add: has_shape4_def s(3))
  moreover have "all_values4 (\<lambda>v. 0 \<le> v \<and> v \<le> 1) t"
    unfolding all_values4_def s(3) using np_divide_255_range by simp
  ultimately show ?thesis by simp
qed

lemma toy_pillow_contract: "pillow_contract (toy_platform a)"
  by (auto simp: pillow_contract_def toy_platform_def toy_array_def has_shape3_def list_all_iff)

theorem preprocessing_shape_and_range_witness:
  "pillow_contract (toy_platform [[Finite 0.9, Finite 0.1]]) \<and>
   load_and_preprocess_image_from_bytes (toy_platform [[Finite 0.9, Finite 0.1]]) [2, 2, 204, 128, 0] (150, 150) =
     Inr [replicate 150 (replicate 150 [4 / 5, 128 / 255, 0])] \<and>
   has_shape4 (1, 150, 150, 3) [replicate 150 (replicate 150 [4 / 5, 128 / 255, 0 :: real])] \<and>
   all_values4 (\<lambda>v. 0 \<le> v \<and> v \<le> 1) [replicate 150 (replicate 150 [4 / 5, 128 / 255, 0 :: real])]"
  using preprocessing_shape_and_range [OF toy_pillow_contract toy_preprocess]
    toy_pillow_contract toy_preprocess
  by blast

text \<open>
  Claim C6. With a model whose predictions are probabilities, in every run that
  succeeds the confidence is a finite number between 0 and 1, and so is the number the
  printed four-decimal text denotes.
\<close>

theorem printed_confidence_in_unit_interval:
  assumes "probability_model pf" and "main pf argv = (out, Inr ())"
  shows "\<exists>label conf.
           stdout (script pf env argv) = [label @ ''|'' @ format_4f (Finite conf)] \<and>
           0 \<le> conf \<and> conf \<le> 1 \<and>
           0 \<le> decimal_value (format_4f (Finite conf)) \<and>
           decimal_value (format_4f (Finite conf)) \<le> 1"
proof -
  from main_success_steps [OF assms(2)] obtain model img_array preds where p:
    "load_model pf model_path = Inr model"
    "predict pf model img_array = Inr preds" "main_report preds = (out, Inr ())"
    by blast
  from main_report_success [OF p(3)] obtain i c where r:
    "np_max preds = Inr c" "out = [class_names ! i @ ''|'' @ format_4f c]"
    by blast
  from probability_is_finite [OF assms(1) p(1,2) np_max_mem [OF r(1)]] obtain conf where
    c: "c = Finite conf" "0 \<le> conf" "conf \<le> 1"
    by blast
  from c(2,3) have "rounded4 conf \<le> 10000" by (rule rounded4_unit)
  then have "real (rounded4 conf) / 10000 \<le> 1" by simp
  with c have "0 \<le> decimal_value (format_4f (Finite conf))"
    "decimal_value (format_4f (Finite conf)) \<le> 1"
    by (simp_all add: decimal_value_fixed_4f)
  with c r(2) show ?thesis
    by (auto simp: script_of_main [OF assms(2)])
qed

lemma toy_probability_model:
  "list_all (list_all (\<lambda>p. case p of Finite r \<Rightarrow> 0 \<le> r \<and> r \<le> 1 | _ \<Rightarrow> False)) a \<Longrightarrow>
   probability_model (toy_platform a)"
  by (simp add: probability_model_def toy_platform_def model_path_def)

theorem printed_confidence_in_unit_interval_witness:
  "probability_model (toy_platform [[Finite 0.9, Finite 0.1]]) \<and>
   main (toy_platform [[Finite 0.9, Finite 0.1]]) [''predict.py'', ''flower.b64''] =
     ([''Marigold|0.9000''], Inr ()) \<and>
   decimal_value ''0.9000'' = 9 / 10 \<and>
   (\<exists>label conf.
      stdout (script (toy_platform [[Finite 0.9, Finite 0.1]]) Map.empty
        [''predict.py'', ''flower.b64'']) = [label @ ''|'' @ format_4f (Finite conf)] \<and>
      0 \<le> conf \<and> conf \<le> 1 \<and>
      0 \<le> decimal_value (format_4f (Finite conf)) \<and>
      decimal_value (format_4f (Finite conf)) \<le> 1)"
proof -
  have pm: "probability_model (toy_platform [[Finite 0.9, Finite 0.1]])"
    by (rule toy_probability_model) simp
  note m = toy_report_09
  have dv: "decimal_value ''0.9000'' = 9 / 10"
    by (simp add: decimal_value_def nat_of_digits_def digit_val_def Let_def)
  from printed_confidence_in_unit_interval [OF pm m, of Map.empty] pm m dv
  show ?thesis by blast
qed

end
